theory Spec2Isabelle
  imports Main
begin

section \<open>Data model\<close>

text \<open>
  Squares are the string labels of chess.js (\<open>''e4''\<close>); a piece is a type and a colour;
  \<open>chess.board()\<close> is a list of rows of optional pieces, row 0 being rank 8.
\<close>

type_synonym square = string

datatype color = White | Black

datatype pieceSymbol = Pawn | Knight | Bishop | Rook | Queen | King

record piece =
  ptype :: pieceSymbol
  pcolor :: color

type_synonym board = "piece option list list"

text \<open>A thrown JavaScript exception, as a value.\<close>

datatype error = Thrown string

text \<open>The \<open>Vector\<close> of types.ts; pixel quantities are modelled as integers.\<close>

record vector =
  vx :: int
  vy :: int

text \<open>The move object of chess.js, with the fields the mock move of the source sets.\<close>

record move =
  mv_from :: square
  mv_to :: square
  mv_promotion :: "pieceSymbol option"
  mv_flags :: string
  mv_piece :: pieceSymbol
  mv_san :: string
  mv_lan :: string
  mv_before :: string
  mv_after :: string

record chessboardState =
  isCheck :: bool
  isCheckmate :: bool
  isDraw :: bool
  isStalemate :: bool
  isThreefoldRepetition :: bool
  isInsufficientMaterial :: bool
  isGameOver :: bool
  fen :: string

text \<open>What the host's \<open>onMove\<close> callback receives.\<close>

record moveInfo =
  info_move :: move
  info_state :: chessboardState
  in_promotion :: bool

section \<open>The rules engine and the environment of the providers\<close>

text \<open>
  chess.js is not part of the repository: the engine is a parameter. Each call either
  throws (\<open>Inl\<close>) or answers (\<open>Inr\<close>); \<open>move\<close> may also answer \<open>null\<close> (\<open>None\<close>), which the
  source tests for. Queries do not change the engine; \<open>move\<close> and \<open>undo\<close> give the new
  engine state when they answer and leave it as it was when they throw.
\<close>

record 'e engine =
  e_move :: "'e \<Rightarrow> square \<Rightarrow> square \<Rightarrow> pieceSymbol option \<Rightarrow> error + (move option \<times> 'e)"
  e_undo :: "'e \<Rightarrow> error + 'e"
  e_turn :: "'e \<Rightarrow> error + color"
  e_isCheckmate :: "'e \<Rightarrow> error + bool"
  e_board :: "'e \<Rightarrow> error + board"
  e_get :: "'e \<Rightarrow> square \<Rightarrow> error + piece option"
  e_fen :: "'e \<Rightarrow> error + string"
  e_moves :: "'e \<Rightarrow> square \<Rightarrow> error + string list option"

text \<open>
  The hooks a provider reads: the engine, the props (\<open>skipValidation\<close>, \<open>pieceSize\<close>,
  \<open>colors.checkmateHighlight\<close>) and two helpers whose files are not among the sources,
  \<open>toTranslation\<close> of \<open>useReversePiecePosition\<close> and \<open>getChessboardState\<close>.
\<close>

record 'e env =
  chess :: "'e engine"
  skipValidation :: bool
  pieceSize :: int
  checkmateHighlight :: string
  toTranslation :: "square \<Rightarrow> error + vector"
  getChessboardState :: "'e \<Rightarrow> error + chessboardState"

section \<open>State, trace and control flow\<close>

text \<open>
  The calls a provider makes to its collaborators are logged in call order: the engine's
  \<open>move\<close>, \<open>moves\<close> and \<open>undo\<close>, the controller's \<open>highlight\<close> and
  \<open>resetAllHighlightedSquares\<close>, the host's move callback, \<open>setBoard\<close>, and a piece
  ref's \<open>enable\<close>. The rendering calls and the host callback are logged where the source
  reaches them (\<open>controller?.\<close>, \<open>onChessboardMoveCallback?.\<close>) and do not throw.
\<close>

datatype event =
    EngineMove square square "pieceSymbol option"
  | EngineMoves square
  | EngineUndo
  | Highlight square "string option"
  | ResetAllHighlightedSquares
  | MoveCallback moveInfo
  | SetBoard board
  | EnablePiece square bool

text \<open>
  The mutable state the providers share: the engine instance, the shared values
  \<open>turn\<close>, \<open>selectableSquares\<close> and \<open>selectedSquare\<close>, and the board context's value.
\<close>

record 'e ui =
  engine :: 'e
  turn :: color
  selectableSquares :: "square list"
  selectedSquare :: "square option"
  boardValue :: board
  trace :: "event list"

text \<open>A statement: it ends normally or by a throw, and the state it reached is kept.\<close>

type_synonym ('s, 'a) prog = "'s \<Rightarrow> (error + 'a) \<times> 's"

definition ret :: "'a \<Rightarrow> ('s, 'a) prog" where
  "ret a s = (Inr a, s)"

definition raise :: "error \<Rightarrow> ('s, 'a) prog" where
  "raise e s = (Inl e, s)"

definition seq :: "('s, 'a) prog \<Rightarrow> ('a \<Rightarrow> ('s, 'b) prog) \<Rightarrow> ('s, 'b) prog" where
  "seq m f s = (case m s of (Inl e, s') \<Rightarrow> (Inl e, s') | (Inr a, s') \<Rightarrow> f a s')"

definition tryCatch :: "('s, 'a) prog \<Rightarrow> (error \<Rightarrow> ('s, 'a) prog) \<Rightarrow> ('s, 'a) prog" where
  "tryCatch m h s = (case m s of (Inl e, s') \<Rightarrow> h e s' | (Inr a, s') \<Rightarrow> (Inr a, s'))"

definition emit :: "event \<Rightarrow> ('e ui, unit) prog" where
  "emit ev s = (Inr (), s\<lparr>trace := trace s @ [ev]\<rparr>)"

definition query :: "('e \<Rightarrow> error + 'a) \<Rightarrow> ('e ui, 'a) prog" where
  "query q s = (q (engine s), s)"

definition setTurn :: "color \<Rightarrow> ('e ui, unit) prog" where
  "setTurn c s = (Inr (), s\<lparr>turn := c\<rparr>)"

definition setBoard :: "board \<Rightarrow> ('e ui, unit) prog" where
  "setBoard b s = (Inr (), s\<lparr>boardValue := b, trace := trace s @ [SetBoard b]\<rparr>)"

section \<open>Square labels\<close>

definition digitChar :: "nat \<Rightarrow> char" where
  "digitChar n = char_of (48 + n)"

fun showNat :: "nat \<Rightarrow> string" where
  "showNat n = (if n < 10 then [digitChar n] else showNat (n div 10) @ [digitChar (n mod 10)])"

declare showNat.simps [simp del]

definition showInt :: "int \<Rightarrow> string" where
  "showInt i = (if i < 0 then CHR ''-'' # showNat (nat (- i)) else showNat (nat i))"

text \<open>
  \<open>String.fromCharCode(97 + x)\<close> followed by \<open>8 - y\<close> in decimal: the label the loops of
  \<open>findKing\<close> build from their two indices.
\<close>

definition squareLabel :: "nat \<Rightarrow> nat \<Rightarrow> square" where
  "squareLabel x y = char_of (97 + x) # showInt (8 - int y)"

definition files :: "char list" where
  "files = ''abcdefgh''"

definition ranks :: "char list" where
  "ranks = ''12345678''"

definition validSquare :: "square \<Rightarrow> bool" where
  "validSquare s = (case s of [f, r] \<Rightarrow> f \<in> set files \<and> r \<in> set ranks | _ \<Rightarrow> False)"

text \<open>The 64 labels.\<close>

definition allSquares :: "square list" where
  "allSquares = concat (map (\<lambda>f. map (\<lambda>r. [f, r]) ranks) files)"

text \<open>The indices of a label: file a..h as 0..7 and rank 1..8 as 0..7.\<close>

definition fileIndex :: "square \<Rightarrow> int" where
  "fileIndex s = of_char (s ! 0) - 97"

definition rankIndex :: "square \<Rightarrow> int" where
  "rankIndex s = of_char (s ! 1) - 49"

text \<open>\<open>to.includes('8')\<close>.\<close>

definition strIncludes :: "string \<Rightarrow> char \<Rightarrow> bool" where
  "strIncludes s c = (c \<in> set s)"

section \<open>isPromoting\<close>

text \<open>\<open>Math.floor(a / b)\<close>: with \<open>b = 0\<close> the quotient is NaN or infinite, no index.\<close>

definition floorDiv :: "int \<Rightarrow> int \<Rightarrow> int option" where
  "floorDiv a b = (if b = 0 then None else Some (a div b))"

text \<open>\<open>xs[i]\<close> of JavaScript: \<open>undefined\<close> off the array.\<close>

definition jsIndex :: "'a list \<Rightarrow> int option \<Rightarrow> 'a option" where
  "jsIndex xs i =
     (case i of
        None \<Rightarrow> None
      | Some n \<Rightarrow> if 0 \<le> n \<and> n < int (length xs) then Some (xs ! nat n) else None)"

text \<open>\<open>chess.board()[y]?.[x]\<close>: \<open>null\<close> and \<open>undefined\<close> are both no piece.\<close>

definition boardCell :: "board \<Rightarrow> int option \<Rightarrow> int option \<Rightarrow> piece option" where
  "boardCell b y x =
     (case jsIndex b y of
        None \<Rightarrow> None
      | Some row \<Rightarrow> (case jsIndex row x of None \<Rightarrow> None | Some cell \<Rightarrow> cell))"

definition promotes :: "piece option \<Rightarrow> square \<Rightarrow> bool" where
  "promotes p to =
     (case p of
        None \<Rightarrow> False
      | Some pc \<Rightarrow>
          ptype pc = Pawn \<and>
          ((strIncludes to CHR ''8'' \<and> pcolor pc = White) \<or>
           (strIncludes to CHR ''1'' \<and> pcolor pc = Black)))"

definition isPromoting :: "'e env \<Rightarrow> square \<Rightarrow> square \<Rightarrow> 'e \<Rightarrow> error + bool" where
  "isPromoting env from to s =
     (if \<not> strIncludes to CHR ''8'' \<and> \<not> strIncludes to CHR ''1'' then Inr False
      else
        (case
           (case toTranslation env from of
              Inl e \<Rightarrow> Inl e
            | Inr val \<Rightarrow>
                (let x = floorDiv (vx val) (pieceSize env);
                     y = floorDiv (vy val) (pieceSize env)
                 in case e_board (chess env) s of
                      Inl e \<Rightarrow> Inl e
                    | Inr b \<Rightarrow> Inr (promotes (boardCell b y x) to)))
         of
           Inl err \<Rightarrow> if skipValidation env then Inr False else Inl err
         | Inr r \<Rightarrow> Inr r))"

section \<open>findKing\<close>

definition colorChar :: "color \<Rightarrow> char" where
  "colorChar c = (case c of White \<Rightarrow> CHR ''w'' | Black \<Rightarrow> CHR ''b'')"

definition typeChar :: "pieceSymbol \<Rightarrow> char" where
  "typeChar t =
     (case t of
        Pawn \<Rightarrow> CHR ''p'' | Knight \<Rightarrow> CHR ''n'' | Bishop \<Rightarrow> CHR ''b''
      | Rook \<Rightarrow> CHR ''r'' | Queen \<Rightarrow> CHR ''q'' | King \<Rightarrow> CHR ''k'')"

text \<open>\<open>s.charAt(n)\<close>: the empty string off the end.\<close>

definition charAt :: "string \<Rightarrow> nat \<Rightarrow> string" where
  "charAt s n = (if n < length s then [s ! n] else [])"

text \<open>\<open>piece?.color === type.charAt(0) && piece.type === type.charAt(1)\<close>.\<close>

definition isPieceOf :: "string \<Rightarrow> piece option \<Rightarrow> bool" where
  "isPieceOf type p =
     (case p of
        None \<Rightarrow> False
      | Some pc \<Rightarrow> [colorChar (pcolor pc)] = charAt type 0 \<and> [typeChar (ptype pc)] = charAt type 1)"

text \<open>The inner loop over \<open>y\<close>, for the outer index \<open>x\<close>.\<close>

fun scanRow ::
  "('e \<Rightarrow> square \<Rightarrow> error + piece option) \<Rightarrow> 'e \<Rightarrow> string \<Rightarrow> nat \<Rightarrow> nat list \<Rightarrow> error + square option"
where
  "scanRow get s type x [] = Inr None"
| "scanRow get s type x (y # ys) =
     (case get s (squareLabel x y) of
        Inl e \<Rightarrow> Inl e
      | Inr p \<Rightarrow> if isPieceOf type p then Inr (Some (squareLabel x y)) else scanRow get s type x ys)"

text \<open>The outer loop over \<open>x\<close>, from the index of the first row given.\<close>

fun scanBoard ::
  "('e \<Rightarrow> square \<Rightarrow> error + piece option) \<Rightarrow> 'e \<Rightarrow> string \<Rightarrow> nat \<Rightarrow> board \<Rightarrow> error + square option"
where
  "scanBoard get s type x [] = Inr None"
| "scanBoard get s type x (row # rows) =
     (case scanRow get s type x [0 ..< length row] of
        Inl e \<Rightarrow> Inl e
      | Inr (Some sq) \<Rightarrow> Inr (Some sq)
      | Inr None \<Rightarrow> scanBoard get s type (Suc x) rows)"

text \<open>The body of the \<open>try\<close> of \<open>findKing\<close>.\<close>

definition kingScan :: "'e env \<Rightarrow> string \<Rightarrow> 'e \<Rightarrow> error + square option" where
  "kingScan env type s =
     (case e_board (chess env) s of
        Inl e \<Rightarrow> Inl e
      | Inr b \<Rightarrow> scanBoard (e_get (chess env)) s type 0 b)"

definition findKing :: "'e env \<Rightarrow> string \<Rightarrow> 'e \<Rightarrow> error + square option" where
  "findKing env type s =
     (case kingScan env type s of
        Inl err \<Rightarrow> if skipValidation env then Inr None else Inl err
      | Inr r \<Rightarrow> Inr r)"

section \<open>moveProgrammatically\<close>

text \<open>The mock move object the source builds when \<open>chess.move\<close> throws under \<open>skipValidation\<close>.\<close>

definition mockMove :: "square \<Rightarrow> square \<Rightarrow> pieceSymbol option \<Rightarrow> string \<Rightarrow> string \<Rightarrow> move" where
  "mockMove from to promotionPiece fenBefore fenAfter =
     \<lparr>mv_from = from, mv_to = to, mv_promotion = promotionPiece, mv_flags = '''',
      mv_piece = Pawn, mv_san = from @ ''-'' @ to, mv_lan = from @ to,
      mv_before = fenBefore, mv_after = fenAfter\<rparr>"

text \<open>\<open>chess.move({from, to, promotion})\<close> on the engine instance of the state.\<close>

definition chessMove ::
  "'e env \<Rightarrow> square \<Rightarrow> square \<Rightarrow> pieceSymbol option \<Rightarrow> ('e ui, move option) prog"
where
  "chessMove env from to promotionPiece s =
     (let s1 = s\<lparr>trace := trace s @ [EngineMove from to promotionPiece]\<rparr>
      in case e_move (chess env) (engine s) from to promotionPiece of
           Inl e \<Rightarrow> (Inl e, s1)
         | Inr (m, e') \<Rightarrow> (Inr m, s1\<lparr>engine := e'\<rparr>))"

text \<open>The first statement of the body: the \<open>skipValidation\<close> branch with its mock move, or the plain call.\<close>

definition requestMove ::
  "'e env \<Rightarrow> square \<Rightarrow> square \<Rightarrow> pieceSymbol option \<Rightarrow> ('e ui, move option) prog"
where
  "requestMove env from to promotionPiece =
     (if skipValidation env then
        tryCatch (chessMove env from to promotionPiece)
          (\<lambda>err. seq (query (e_fen (chess env))) (\<lambda>fenBefore.
                  seq (query (e_fen (chess env))) (\<lambda>fenAfter.
                  ret (Some (mockMove from to promotionPiece fenBefore fenAfter)))))
      else chessMove env from to promotionPiece)"

definition updateTurn :: "'e env \<Rightarrow> ('e ui, unit) prog" where
  "updateTurn env =
     tryCatch (seq (query (e_turn (chess env))) setTurn)
       (\<lambda>err. if \<not> skipValidation env then raise err else ret ())"

definition readCheckmate :: "'e env \<Rightarrow> ('e ui, bool) prog" where
  "readCheckmate env =
     tryCatch (query (e_isCheckmate (chess env)))
       (\<lambda>err. if \<not> skipValidation env then raise err else ret False)"

text \<open>
  The checkmate block. Its result says whether the body goes on: \<open>False\<close> is the
  \<open>return\<close> taken when \<open>findKing\<close> gives no square.
\<close>

definition highlightMatedKing :: "'e env \<Rightarrow> ('e ui, bool) prog" where
  "highlightMatedKing env =
     seq (query (e_turn (chess env))) (\<lambda>c.
     seq (query (findKing env (if c = Black then ''bk'' else ''wk''))) (\<lambda>square.
       case square of
         None \<Rightarrow> ret False
       | Some sq \<Rightarrow> seq (emit (Highlight sq (Some (checkmateHighlight env)))) (\<lambda>_. ret True)))"

definition defaultChessboardState :: chessboardState where
  "defaultChessboardState =
     \<lparr>isCheck = False, isCheckmate = False, isDraw = False, isStalemate = False,
      isThreefoldRepetition = False, isInsufficientMaterial = False, isGameOver = False,
      fen = ''''\<rparr>"

definition readChessboardState :: "'e env \<Rightarrow> ('e ui, chessboardState) prog" where
  "readChessboardState env =
     tryCatch (query (getChessboardState env))
       (\<lambda>err. if skipValidation env then ret defaultChessboardState else raise err)"

definition publishBoard :: "'e env \<Rightarrow> ('e ui, unit) prog" where
  "publishBoard env =
     tryCatch (seq (query (e_board (chess env))) setBoard)
       (\<lambda>err. if \<not> skipValidation env then raise err else ret ())"

text \<open>The statements after the checkmate block, for the move \<open>m\<close>: state, callback, board.\<close>

definition deliver :: "'e env \<Rightarrow> pieceSymbol option \<Rightarrow> move \<Rightarrow> ('e ui, unit) prog" where
  "deliver env promotionPiece m =
     seq (readChessboardState env) (\<lambda>chessboardState.
     seq (emit (MoveCallback
            \<lparr>info_move = m, info_state = chessboardState,
             in_promotion = (promotionPiece \<noteq> None)\<rparr>)) (\<lambda>_.
     publishBoard env))"

text \<open>The statements after \<open>if (move == null) return\<close>, for the move \<open>m\<close>.\<close>

definition afterMove :: "'e env \<Rightarrow> pieceSymbol option \<Rightarrow> move \<Rightarrow> ('e ui, unit) prog" where
  "afterMove env promotionPiece m =
     seq (readCheckmate env) (\<lambda>isCheckmate.
     seq (if isCheckmate then highlightMatedKing env else ret True) (\<lambda>goOn.
       if \<not> goOn then ret () else deliver env promotionPiece m))"

definition moveBody :: "'e env \<Rightarrow> square \<Rightarrow> square \<Rightarrow> pieceSymbol option \<Rightarrow> ('e ui, unit) prog" where
  "moveBody env from to promotionPiece =
     seq (requestMove env from to promotionPiece) (\<lambda>move.
     seq (updateTurn env) (\<lambda>_.
       case move of
         None \<Rightarrow> ret ()
       | Some m \<Rightarrow> afterMove env promotionPiece m))"

definition moveProgrammatically ::
  "'e env \<Rightarrow> square \<Rightarrow> square \<Rightarrow> pieceSymbol option \<Rightarrow> ('e ui, unit) prog"
where
  "moveProgrammatically env from to promotionPiece =
     tryCatch (moveBody env from to promotionPiece)
       (\<lambda>err. if \<not> skipValidation env then raise err else ret ())"

section \<open>undo\<close>



section \<open>The promotion dialog\<close>

text \<open>
  The state of \<open>BoardPromotionContextProvider\<close>; \<open>'k\<close> is the type of the \<open>onSelect\<close>
  callbacks handed to \<open>showPromotionDialog\<close>.
\<close>

record 'k dialogState =
  isDialogActive :: bool
  dialogType :: "color option"
  dialogOnSelect :: "'k option"

definition closedDialog :: "'k dialogState" where
  "closedDialog = \<lparr>isDialogActive = False, dialogType = None, dialogOnSelect = None\<rparr>"

definition showPromotionDialog :: "color \<Rightarrow> 'k option \<Rightarrow> 'k dialogState \<Rightarrow> 'k dialogState" where
  "showPromotionDialog type onSel dialog =
     \<lparr>isDialogActive = True, dialogType = Some type, dialogOnSelect = onSel\<rparr>"

text \<open>
  \<open>onSelect\<close> of the provider: \<open>dialog.onSelect?.(piece); setDialog({isDialogActive: false})\<close>.
  \<open>call\<close> runs a stored callback on the rest of the world \<open>'w\<close>; when it throws, the
  \<open>setDialog\<close> after it is not reached.
\<close>

definition onSelect ::
  "('k \<Rightarrow> pieceSymbol \<Rightarrow> ('w, unit) prog) \<Rightarrow> pieceSymbol \<Rightarrow> ('k dialogState \<times> 'w, unit) prog"
where
  "onSelect call piece = (\<lambda>(dialog, w).
     case dialogOnSelect dialog of
       None \<Rightarrow> (Inr (), (closedDialog, w))
     | Some k \<Rightarrow>
         (case call k piece w of
            (Inl e, w') \<Rightarrow> (Inl e, (dialog, w'))
          | (Inr u, w') \<Rightarrow> (Inr (), (closedDialog, w'))))"

text \<open>A world that only records the calls made: the callbacks and their arguments, in order.\<close>

definition recordCall :: "'k \<Rightarrow> pieceSymbol \<Rightarrow> (('k \<times> pieceSymbol) list, unit) prog" where
  "recordCall k piece calls = (Inr (), calls @ [(k, piece)])"

section \<open>onMove\<close>

text \<open>
  The one callback the source hands to the dialog, the arrow function of \<open>onMove\<close>, as data:
  it captures \<open>from\<close> and \<open>to\<close>.
\<close>

datatype continuation = ResumeMove square square

definition resume :: "'e env \<Rightarrow> continuation \<Rightarrow> pieceSymbol \<Rightarrow> ('e ui, unit) prog" where
  "resume env k piece =
     (case k of
        ResumeMove from to \<Rightarrow>
          seq (moveProgrammatically env from to (Some piece)) (\<lambda>_. emit (EnablePiece to True)))"


section \<open>onSelectPiece\<close>

text \<open>The last element of \<open>square.split('x')\<close>.\<close>

definition lastSplitX :: "string \<Rightarrow> string" where
  "lastSplitX s = rev (takeWhile (\<lambda>c. c \<noteq> CHR ''x'') (rev s))"

text \<open>The function mapped over \<open>validSquares\<close>.\<close>

definition targetSquare :: "'e env \<Rightarrow> 'e \<Rightarrow> string \<Rightarrow> string" where
  "targetSquare env e sq =
     (if sq = ''O-O'' then
        (case e_turn (chess env) e of
           Inl err \<Rightarrow> sq
         | Inr c \<Rightarrow> if c = White then ''g1'' else ''g8'')
      else if sq = ''O-O-O'' then
        (case e_turn (chess env) e of
           Inl err \<Rightarrow> sq
         | Inr c \<Rightarrow> if c = White then ''c1'' else ''c8'')
      else lastSplitX sq)"

definition onSelectPiece :: "'e env \<Rightarrow> square \<Rightarrow> ('e ui, unit) prog" where
  "onSelectPiece env square s =
     (let s1 = s\<lparr>selectedSquare := Some square\<rparr>
      in if skipValidation env then
           (Inr (), s1\<lparr>selectableSquares := map (targetSquare env (engine s1)) []\<rparr>)
         else
           (let s2 = s1\<lparr>trace := trace s1 @ [EngineMoves square]\<rparr>;
                validSquares =
                  (case e_moves (chess env) (engine s2) square of
                     Inl err \<Rightarrow> []
                   | Inr None \<Rightarrow> []
                   | Inr (Some ms) \<Rightarrow> ms)
            in (Inr (), s2\<lparr>selectableSquares := map (targetSquare env (engine s2)) validSquares\<rparr>)))"

section \<open>Reading the trace\<close>


definition isHighlight :: "event \<Rightarrow> bool" where
  "isHighlight ev = (case ev of Highlight sq c \<Rightarrow> True | _ \<Rightarrow> False)"

definition isEngineMove :: "event \<Rightarrow> bool" where
  "isEngineMove ev = (case ev of EngineMove a b p \<Rightarrow> True | _ \<Rightarrow> False)"

definition isEngineMoves :: "event \<Rightarrow> bool" where
  "isEngineMoves ev = (case ev of EngineMoves sq \<Rightarrow> True | _ \<Rightarrow> False)"

text \<open>The events a run added: the trace of the state after, past the trace of the state before.\<close>

definition newEvents :: "'e ui \<Rightarrow> 'e ui \<Rightarrow> event list" where
  "newEvents s s' = drop (length (trace s)) (trace s')"

text \<open>The piece on a square of a \<open>chess.board()\<close> matrix: row \<open>8 - rank\<close>, column of the file.\<close>

definition pieceAt :: "board \<Rightarrow> square \<Rightarrow> piece option" where
  "pieceAt b sq = boardCell b (Some (7 - rankIndex sq)) (Some (fileIndex sq))"

definition wfBoard :: "board \<Rightarrow> bool" where
  "wfBoard b = (length b = 8 \<and> list_all (\<lambda>row. length row = 8) b)"

text \<open>The argument \<open>findKing\<close> gets for the side to move.\<close>

definition kingType :: "color \<Rightarrow> string" where
  "kingType c = (if c = Black then ''bk'' else ''wk'')"

section \<open>A small engine for concrete runs\<close>

text \<open>
  An engine state is the number of moves made. The position is fixed; the one legal move is
  e2-e4, any other request throws; white is to move at even counts.
\<close>

definition emptyRow :: "piece option list" where
  "emptyRow = replicate 8 None"

definition toyBoard :: board where
  "toyBoard =
     [[None, None, None, None, None, None, None, Some \<lparr>ptype = King, pcolor = Black\<rparr>],
      [Some \<lparr>ptype = Pawn, pcolor = White\<rparr>, None, None, None, None, None, None, None],
      emptyRow, emptyRow, emptyRow, emptyRow,
      [None, None, None, None, Some \<lparr>ptype = Pawn, pcolor = White\<rparr>, None, None, None],
      [None, None, None, None, Some \<lparr>ptype = King, pcolor = White\<rparr>, None, None, None]]"

definition toyMove :: move where
  "toyMove =
     \<lparr>mv_from = ''e2'', mv_to = ''e4'', mv_promotion = None, mv_flags = ''b'',
      mv_piece = Pawn, mv_san = ''e4'', mv_lan = ''e2e4'', mv_before = ''toy0'', mv_after = ''toy1''\<rparr>"

definition toyEngine :: "nat engine" where
  "toyEngine =
     \<lparr>e_move = (\<lambda>n from to p.
        if from = ''e2'' \<and> to = ''e4'' then Inr (Some toyMove, Suc n) else Inl (Thrown ''Invalid move'')),
      e_undo = (\<lambda>n. Inr (n - 1)),
      e_turn = (\<lambda>n. Inr (if even n then White else Black)),
      e_isCheckmate = (\<lambda>n. Inr False),
      e_board = (\<lambda>n. Inr toyBoard),
      e_get = (\<lambda>n sq. Inr (pieceAt toyBoard sq)),
      e_fen = (\<lambda>n. Inr ''toy''),
      e_moves = (\<lambda>n sq. Inr (Some [''e4'']))\<rparr>"

definition toyEnv :: "nat engine \<Rightarrow> bool \<Rightarrow> nat env" where
  "toyEnv eng skip =
     \<lparr>chess = eng, skipValidation = skip, pieceSize = 50, checkmateHighlight = ''red'',
      toTranslation = (\<lambda>sq. Inr \<lparr>vx = fileIndex sq * 50, vy = (7 - rankIndex sq) * 50\<rparr>),
      getChessboardState = (\<lambda>n. Inr defaultChessboardState)\<rparr>"

definition toyUi :: "nat ui" where
  "toyUi =
     \<lparr>engine = 0, turn = White, selectableSquares = [], selectedSquare = None,
      boardValue = toyBoard, trace = []\<rparr>"

text \<open>The engine of an older interface: a request it rejects answers \<open>null\<close> instead of throwing.\<close>

definition nullEngine :: "nat engine" where
  "nullEngine =
     toyEngine\<lparr>e_move := (\<lambda>n from to p.
        if from = ''e2'' \<and> to = ''e4'' then Inr (Some toyMove, Suc n) else Inr (None, n))\<rparr>"

text \<open>Variants: checkmate is reported while \<open>board()\<close> throws; \<open>fen()\<close> throws.\<close>

definition lostKingEngine :: "nat engine" where
  "lostKingEngine =
     toyEngine\<lparr>e_isCheckmate := (\<lambda>n. Inr True), e_board := (\<lambda>n. Inl (Thrown ''board''))\<rparr>"



text \<open>A variant that reports checkmate after the first move.\<close>

definition matingEngine :: "nat engine" where
  "matingEngine = toyEngine\<lparr>e_isCheckmate := (\<lambda>n. Inr (n = 1))\<rparr>"

section \<open>The coordinate mapper\<close>

text \<open>
  Modelled from the spec: the CoordinateMapper. Its file (\<open>notation\<close>, which the operations
  provider imports for \<open>toTranslation\<close>) is not among the sources. The spec gives two pure
  functions between pixel positions and square labels that know the orientation of the
  board (it may be flipped), with no square for a pixel off the board. The cell edge
  \<open>cell\<close> is the \<open>pieceSize\<close> of the props.
\<close>

datatype orientation = WhiteBelow | BlackBelow

text \<open>Modelled from the spec: the label of a file index and a rank index, \<open>labelOf 4 3 = ''e4''\<close>.\<close>

definition labelOf :: "int \<Rightarrow> int \<Rightarrow> square" where
  "labelOf f r = [char_of (97 + f), char_of (49 + r)]"

text \<open>
  Modelled from the spec: \<open>pixelOf(square) -> pixel\<close>, the top-left corner of the square's
  cell; file a and rank 8 are at the origin when white is below, file h and rank 1 when
  the board is flipped.
\<close>

definition pixelOf :: "orientation \<Rightarrow> int \<Rightarrow> square \<Rightarrow> vector" where
  "pixelOf ori cell s =
     (case ori of
        WhiteBelow \<Rightarrow> \<lparr>vx = fileIndex s * cell, vy = (7 - rankIndex s) * cell\<rparr>
      | BlackBelow \<Rightarrow> \<lparr>vx = (7 - fileIndex s) * cell, vy = rankIndex s * cell\<rparr>)"

text \<open>
  Modelled from the spec: \<open>squareOf(pixel) -> Square\<close>, the square of the cell the pixel
  falls in, and no square for a pixel outside the board.
\<close>

definition squareOf :: "orientation \<Rightarrow> int \<Rightarrow> vector \<Rightarrow> square option" where
  "squareOf ori cell px =
     (if cell \<le> 0 \<or> vx px < 0 \<or> vy px < 0 \<or> 8 * cell \<le> vx px \<or> 8 * cell \<le> vy px then None
      else
        (let col = vx px div cell; row = vy px div cell
         in case ori of
              WhiteBelow \<Rightarrow> Some (labelOf col (7 - row))
            | BlackBelow \<Rightarrow> Some (labelOf (7 - col) row)))"

section \<open>When the pipeline reaches the callback\<close>



section \<open>The statements of moveProgrammatically, one by one\<close>

lemma requestMove_eq:
  "requestMove env from to p s =
     (case e_move (chess env) (engine s) from to p of
        Inr (m, e1) \<Rightarrow> (Inr m, s\<lparr>trace := trace s @ [EngineMove from to p], engine := e1\<rparr>)
      | Inl err \<Rightarrow>
          if skipValidation env then
            (case e_fen (chess env) (engine s) of
               Inl err2 \<Rightarrow> (Inl err2, s\<lparr>trace := trace s @ [EngineMove from to p]\<rparr>)
             | Inr f \<Rightarrow>
                 (Inr (Some (mockMove from to p f f)), s\<lparr>trace := trace s @ [EngineMove from to p]\<rparr>))
          else (Inl err, s\<lparr>trace := trace s @ [EngineMove from to p]\<rparr>))"
  by (simp add: requestMove_def chessMove_def tryCatch_def seq_def query_def ret_def Let_def
      split: sum.splits prod.splits)

lemma updateTurn_eq:
  "updateTurn env s =
     (case e_turn (chess env) (engine s) of
        Inr c \<Rightarrow> (Inr (), s\<lparr>turn := c\<rparr>)
      | Inl e \<Rightarrow> if skipValidation env then (Inr (), s) else (Inl e, s))"
  by (simp add: updateTurn_def tryCatch_def seq_def query_def setTurn_def ret_def raise_def
      split: sum.splits)

lemma readCheckmate_eq:
  "readCheckmate env s =
     (case e_isCheckmate (chess env) (engine s) of
        Inr b \<Rightarrow> (Inr b, s)
      | Inl e \<Rightarrow> if skipValidation env then (Inr False, s) else (Inl e, s))"
  by (simp add: readCheckmate_def tryCatch_def query_def ret_def raise_def split: sum.splits)

lemma highlightMatedKing_eq:
  "highlightMatedKing env s =
     (case e_turn (chess env) (engine s) of
        Inl e \<Rightarrow> (Inl e, s)
      | Inr c \<Rightarrow>
          (case findKing env (kingType c) (engine s) of
             Inl e \<Rightarrow> (Inl e, s)
           | Inr None \<Rightarrow> (Inr False, s)
           | Inr (Some sq) \<Rightarrow>
               (Inr True, s\<lparr>trace := trace s @ [Highlight sq (Some (checkmateHighlight env))]\<rparr>)))"
  by (simp add: highlightMatedKing_def seq_def query_def ret_def emit_def kingType_def
      split: sum.splits option.splits)

lemma readChessboardState_eq:
  "readChessboardState env s =
     (case getChessboardState env (engine s) of
        Inr st \<Rightarrow> (Inr st, s)
      | Inl e \<Rightarrow> if skipValidation env then (Inr defaultChessboardState, s) else (Inl e, s))"
  by (simp add: readChessboardState_def tryCatch_def query_def ret_def raise_def split: sum.splits)

lemma publishBoard_eq:
  "publishBoard env s =
     (case e_board (chess env) (engine s) of
        Inr b \<Rightarrow> (Inr (), s\<lparr>boardValue := b, trace := trace s @ [SetBoard b]\<rparr>)
      | Inl e \<Rightarrow> if skipValidation env then (Inr (), s) else (Inl e, s))"
  by (simp add: publishBoard_def tryCatch_def seq_def query_def setBoard_def ret_def raise_def
      split: sum.splits)

lemma snd_moveProgrammatically:
  "snd (moveProgrammatically env from to p s) = snd (moveBody env from to p s)"
  by (simp add: moveProgrammatically_def tryCatch_def ret_def raise_def split: prod.splits sum.splits)


lemma deliver_eq:
  "deliver env p m s =
     (case getChessboardState env (engine s) of
        Inl e \<Rightarrow>
          if skipValidation env then
            publishBoard env (s\<lparr>trace := trace s @
              [MoveCallback \<lparr>info_move = m, info_state = defaultChessboardState, in_promotion = (p \<noteq> None)\<rparr>]\<rparr>)
          else (Inl e, s)
      | Inr st \<Rightarrow>
          publishBoard env (s\<lparr>trace := trace s @
            [MoveCallback \<lparr>info_move = m, info_state = st, in_promotion = (p \<noteq> None)\<rparr>]\<rparr>))"
  by (simp add: deliver_def seq_def readChessboardState_eq emit_def split: sum.splits)

lemma afterMove_eq:
  "afterMove env p m s =
     (case e_isCheckmate (chess env) (engine s) of
        Inl e \<Rightarrow> if skipValidation env then deliver env p m s else (Inl e, s)
      | Inr False \<Rightarrow> deliver env p m s
      | Inr True \<Rightarrow>
          (case e_turn (chess env) (engine s) of
             Inl e \<Rightarrow> (Inl e, s)
           | Inr c \<Rightarrow>
               (case findKing env (kingType c) (engine s) of
                  Inl e \<Rightarrow> (Inl e, s)
                | Inr None \<Rightarrow> (Inr (), s)
                | Inr (Some sq) \<Rightarrow>
                    deliver env p m
                      (s\<lparr>trace := trace s @ [Highlight sq (Some (checkmateHighlight env))]\<rparr>))))"
  by (simp add: afterMove_def seq_def readCheckmate_eq highlightMatedKing_eq ret_def
      split: sum.splits option.splits bool.splits)





text \<open>What one run of the delivery adds to the trace.\<close>

lemma deliver_new:
  "\<exists>evs. trace (snd (deliver env p m s)) = trace s @ evs \<and>
     filter isEngineMove evs = [] \<and> filter isHighlight evs = [] \<and>
     (\<forall>i. MoveCallback i \<in> set evs \<longrightarrow> info_move i = m \<and> in_promotion i = (p \<noteq> None)) \<and>
     (\<forall>b. SetBoard b \<in> set evs \<longrightarrow>
        e_board (chess env) (engine s) = Inr b \<and> boardValue (snd (deliver env p m s)) = b)"
  by (auto simp add: deliver_eq publishBoard_eq isEngineMove_def isHighlight_def split: sum.splits)

lemma afterMove_new:
  "\<exists>evs. trace (snd (afterMove env p m s)) = trace s @ evs \<and>
     filter isEngineMove evs = [] \<and>
     (\<forall>i. MoveCallback i \<in> set evs \<longrightarrow> info_move i = m \<and> in_promotion i = (p \<noteq> None)) \<and>
     (\<forall>b. SetBoard b \<in> set evs \<longrightarrow>
        e_board (chess env) (engine s) = Inr b \<and> boardValue (snd (afterMove env p m s)) = b)"
proof -
  define Q :: "(error + unit) \<times> 'a ui \<Rightarrow> bool" where
    "Q = (\<lambda>r. \<exists>evs. trace (snd r) = trace s @ evs \<and>
       filter isEngineMove evs = [] \<and>
       (\<forall>i. MoveCallback i \<in> set evs \<longrightarrow> info_move i = m \<and> in_promotion i = (p \<noteq> None)) \<and>
       (\<forall>b. SetBoard b \<in> set evs \<longrightarrow>
          e_board (chess env) (engine s) = Inr b \<and> boardValue (snd r) = b))"
  have stop: "Q (x, s)" for x
    by (simp add: Q_def)
  have d0: "Q (deliver env p m s)"
    unfolding Q_def using deliver_new [of env p m s] by blast
  have dh: "Q (deliver env p m (s\<lparr>trace := trace s @ [Highlight sq c]\<rparr>))" for sq c
  proof -
    obtain evs where e: "trace (snd (deliver env p m (s\<lparr>trace := trace s @ [Highlight sq c]\<rparr>))) =
        trace (s\<lparr>trace := trace s @ [Highlight sq c]\<rparr>) @ evs"
      "filter isEngineMove evs = []"
      "\<forall>i. MoveCallback i \<in> set evs \<longrightarrow> info_move i = m \<and> in_promotion i = (p \<noteq> None)"
      "\<forall>b. SetBoard b \<in> set evs \<longrightarrow>
        e_board (chess env) (engine (s\<lparr>trace := trace s @ [Highlight sq c]\<rparr>)) = Inr b \<and>
        boardValue (snd (deliver env p m (s\<lparr>trace := trace s @ [Highlight sq c]\<rparr>))) = b"
      using deliver_new [of env p m "s\<lparr>trace := trace s @ [Highlight sq c]\<rparr>"] by blast
    show ?thesis
      unfolding Q_def
      by (rule exI [of _ "Highlight sq c # evs"]) (use e in \<open>simp add: isEngineMove_def\<close>)
  qed
  have "Q (afterMove env p m s)"
    by (simp add: afterMove_eq stop d0 dh split: sum.splits option.splits bool.splits)
  then show ?thesis
    by (simp add: Q_def)
qed

section \<open>Permissive mode raises nothing\<close>



section \<open>Selecting a piece\<close>

text \<open>
  C10. With \<open>skipValidation\<close> set, \<open>onSelectPiece\<close> records the selected square, sets the
  selectable squares to the empty list and makes no call at all (the trace is as before, so
  \<open>chess.moves\<close> is not queried), for every square, engine and state.
\<close>

theorem onSelectPiece_permissive:
  "skipValidation env \<Longrightarrow>
     onSelectPiece env square s = (Inr (), s\<lparr>selectedSquare := Some square, selectableSquares := []\<rparr>) \<and>
     selectableSquares (snd (onSelectPiece env square s)) = [] \<and>
     trace (snd (onSelectPiece env square s)) = trace s \<and>
     filter isEngineMoves (trace (snd (onSelectPiece env square s))) = filter isEngineMoves (trace s)"
  by (simp add: onSelectPiece_def)

text \<open>
  The pawn on e2 of the toy position: no selectable square under \<open>skipValidation\<close>, the
  engine's e4 without.
\<close>

theorem onSelectPiece_permissive_witness:
  "skipValidation (toyEnv toyEngine True) \<and>
   selectableSquares (snd (onSelectPiece (toyEnv toyEngine True) ''e2'' toyUi)) = [] \<and>
   trace (snd (onSelectPiece (toyEnv toyEngine True) ''e2'' toyUi)) = trace toyUi \<and>
   selectableSquares (snd (onSelectPiece (toyEnv toyEngine False) ''e2'' toyUi)) = [''e4'']"
  using onSelectPiece_permissive [of "toyEnv toyEngine True" "''e2''" toyUi]
  by (simp add: toyEnv_def toyEngine_def toyUi_def onSelectPiece_def targetSquare_def lastSplitX_def)

section \<open>The trace of one call of the pipeline\<close>

lemma moveBody_prefix_aux:
  "\<exists>evs. trace (snd (moveBody env from to p s)) = trace s @ EngineMove from to p # evs \<and>
     filter isEngineMove evs = []"
proof -
  have am: "\<exists>evs. trace (snd (afterMove env p m s1)) = trace s @ EngineMove from to p # evs \<and>
     filter isEngineMove evs = []" if "trace s1 = trace s @ [EngineMove from to p]" for m s1
    using afterMove_new [of env p m s1] that by auto
  show ?thesis
    by (simp add: moveBody_def seq_def requestMove_eq updateTurn_eq ret_def am
        split: sum.splits option.splits prod.splits)
qed

lemmas toy_defs = toyEnv_def toyEngine_def toyUi_def nullEngine_def

lemmas run_defs = moveProgrammatically_def tryCatch_def raise_def ret_def moveBody_def seq_def
  requestMove_eq updateTurn_eq afterMove_eq deliver_eq publishBoard_eq



section \<open>Callbacks in Permissive mode\<close>




section \<open>A rejected move in Strict mode\<close>




section \<open>The mock move\<close>




section \<open>Promotion: suspending and resuming\<close>

lemma moveProgrammatically_engineMoves:
  "filter isEngineMove (newEvents s (snd (moveProgrammatically env from to p s))) = [EngineMove from to p]"
proof -
  obtain evs where "trace (snd (moveBody env from to p s)) = trace s @ EngineMove from to p # evs"
    and "filter isEngineMove evs = []"
    using moveBody_prefix_aux [of env "from" "to" p s] by blast
  then show ?thesis
    by (simp add: snd_moveProgrammatically newEvents_def isEngineMove_def)
qed





section \<open>The promotion slot\<close>

text \<open>
  C8, as amended. The dialog state has one slot for a callback. \<open>showPromotionDialog\<close>
  fills it whatever it held (its result does not depend on the old state), so an older
  callback is gone and a later selection calls the new one only. \<open>onSelect\<close> calls the
  callback held exactly once with the piece and, when that call returns normally, leaves
  the dialog closed with the slot empty; with no callback held it calls nothing and closes
  the dialog.
\<close>

theorem promotion_slot:
  "showPromotionDialog type k d =
     \<lparr>isDialogActive = True, dialogType = Some type, dialogOnSelect = k\<rparr> \<and>
   showPromotionDialog type k d = showPromotionDialog type k d0 \<and>
   (dialogOnSelect d = Some k1 \<longrightarrow>
      onSelect recordCall piece (showPromotionDialog type (Some k2) d, calls) =
        (Inr (), (closedDialog, calls @ [(k2, piece)]))) \<and>
   (dialogOnSelect d = Some k1 \<longrightarrow>
      onSelect recordCall piece (d, calls) = (Inr (), (closedDialog, calls @ [(k1, piece)]))) \<and>
   (dialogOnSelect d = Some k1 \<and> call k1 piece w = (Inr (), w') \<longrightarrow>
      onSelect call piece (d, w) = (Inr (), (closedDialog, w'))) \<and>
   (dialogOnSelect d = None \<longrightarrow> onSelect call piece (d, w) = (Inr (), (closedDialog, w)))"
  by (simp add: showPromotionDialog_def onSelect_def recordCall_def)

text \<open>A second request over a pending one: the selection calls the second callback only.\<close>

theorem promotion_slot_witness:
  "onSelect recordCall Queen
     (showPromotionDialog Black (Some (ResumeMove ''b2'' ''b1''))
        (showPromotionDialog White (Some (ResumeMove ''a7'' ''a8'')) closedDialog), []) =
     (Inr (), (closedDialog, [(ResumeMove ''b2'' ''b1'', Queen)])) \<and>
   onSelect recordCall Rook
     (showPromotionDialog White (Some (ResumeMove ''a7'' ''a8'')) closedDialog, []) =
     (Inr (), (closedDialog, [(ResumeMove ''a7'' ''a8'', Rook)]))"
  using promotion_slot [of Black "Some (ResumeMove ''b2'' ''b1'')"
      "showPromotionDialog White (Some (ResumeMove ''a7'' ''a8'')) closedDialog" closedDialog
      "ResumeMove ''a7'' ''a8''" Queen "ResumeMove ''b2'' ''b1''" "[]" recordCall "[]" "[]"]
    promotion_slot [of White "Some (ResumeMove ''a7'' ''a8'')" closedDialog closedDialog
      "ResumeMove ''a7'' ''a8''" Rook "ResumeMove ''a7'' ''a8''" "[]" recordCall "[]" "[]"]
  by (simp add: showPromotionDialog_def onSelect_def recordCall_def)

text \<open>
  C8 as stated fails where the callback throws: without \<open>skipValidation\<close> the engine
  rejects a7-b8, \<open>moveProgrammatically\<close> rethrows, and \<open>setDialog\<close> is not reached, so
  the dialog stays active and still holds the callback.
\<close>

theorem promotion_slot_kept_on_throw:
  "\<not> skipValidation (toyEnv toyEngine False) \<and>
   fst (onSelect (resume (toyEnv toyEngine False)) Queen
     (showPromotionDialog White (Some (ResumeMove ''a7'' ''b8'')) closedDialog, toyUi)) =
     Inl (Thrown ''Invalid move'') \<and>
   filter isEngineMove (newEvents toyUi (snd (snd (onSelect (resume (toyEnv toyEngine False)) Queen
     (showPromotionDialog White (Some (ResumeMove ''a7'' ''b8'')) closedDialog, toyUi))))) =
     [EngineMove ''a7'' ''b8'' (Some Queen)] \<and>
   fst (snd (onSelect (resume (toyEnv toyEngine False)) Queen
     (showPromotionDialog White (Some (ResumeMove ''a7'' ''b8'')) closedDialog, toyUi))) =
     \<lparr>isDialogActive = True, dialogType = Some White, dialogOnSelect = Some (ResumeMove ''a7'' ''b8'')\<rparr>"
  by (simp add: onSelect_def resume_def showPromotionDialog_def toy_defs run_defs emit_def
      newEvents_def isEngineMove_def)

section \<open>Facts about the 64 squares\<close>

lemma validSquare_allSquares: "validSquare s \<Longrightarrow> s \<in> set allSquares"
  by (auto simp add: validSquare_def allSquares_def split: list.splits)

lemma allSquares_ranks:
  "\<forall>sq \<in> set allSquares.
     (strIncludes sq CHR ''8'' \<longleftrightarrow> rankIndex sq = 7) \<and>
     (strIncludes sq CHR ''1'' \<longleftrightarrow> rankIndex sq = 0) \<and>
     0 \<le> fileIndex sq \<and> fileIndex sq \<le> 7 \<and> 0 \<le> rankIndex sq \<and> rankIndex sq \<le> 7"
  by code_simp

lemma validSquare_facts:
  assumes "validSquare sq"
  shows "strIncludes sq CHR ''8'' \<longleftrightarrow> rankIndex sq = 7"
    and "strIncludes sq CHR ''1'' \<longleftrightarrow> rankIndex sq = 0"
    and "0 \<le> fileIndex sq" and "fileIndex sq \<le> 7" and "0 \<le> rankIndex sq" and "rankIndex sq \<le> 7"
  using allSquares_ranks validSquare_allSquares [OF assms] by blast+

lemma allSquares_labelOf: "\<forall>sq \<in> set allSquares. labelOf (fileIndex sq) (rankIndex sq) = sq"
  by code_simp

lemma validSquare_labelOf: "validSquare sq \<Longrightarrow> labelOf (fileIndex sq) (rankIndex sq) = sq"
  using allSquares_labelOf validSquare_allSquares by blast

section \<open>The scan of findKing\<close>

lemma squareLabel_valid_all: "\<forall>x \<in> set [0 ..< 8]. \<forall>y \<in> set [0 ..< 8]. validSquare (squareLabel x y)"
  by code_simp

lemma squareLabel_valid: "x < 8 \<Longrightarrow> y < 8 \<Longrightarrow> validSquare (squareLabel x y)"
  using squareLabel_valid_all by simp

lemma valid_squares_labels:
  "set (concat (map (\<lambda>f. map (\<lambda>r. [f, r]) ranks) files)) =
   set (concat (map (\<lambda>x. map (squareLabel x) [0 ..< 8]) [0 ..< 8]))"
  by code_simp

lemma validSquare_label:
  assumes "validSquare k"
  shows "\<exists>x < 8. \<exists>y < 8. k = squareLabel x y"
proof -
  from assms obtain f r where k: "k = [f, r]" "f \<in> set files" "r \<in> set ranks"
    by (auto simp add: validSquare_def split: list.splits)
  then have "k \<in> set (concat (map (\<lambda>f. map (\<lambda>r. [f, r]) ranks) files))"
    by auto
  then have "k \<in> set (concat (map (\<lambda>x. map (squareLabel x) [0 ..< 8]) [0 ..< 8]))"
    by (simp only: valid_squares_labels)
  then obtain x y where "x < 8" "y < 8" "k = squareLabel x y"
    by auto
  then show ?thesis
    by blast
qed

lemma isPieceOf_king:
  "isPieceOf (kingType c) q \<longleftrightarrow> q = Some \<lparr>ptype = King, pcolor = c\<rparr>"
proof (cases q)
  case None
  then show ?thesis by (simp add: isPieceOf_def)
next
  case (Some pc)
  then show ?thesis
    by (cases pc; cases c; cases "ptype pc"; cases "pcolor pc")
      (auto simp add: isPieceOf_def kingType_def charAt_def colorChar_def typeChar_def)
qed

lemma scanRow_answers:
  assumes "\<forall>y \<in> set ys. \<exists>q. get s (squareLabel x y) = Inr q"
  shows "\<exists>r. scanRow get s type x ys = Inr r \<and>
     (case r of
        None \<Rightarrow> (\<forall>y \<in> set ys. \<forall>q. get s (squareLabel x y) = Inr q \<longrightarrow> \<not> isPieceOf type q)
      | Some sq \<Rightarrow> (\<exists>y \<in> set ys. sq = squareLabel x y \<and> (\<exists>q. get s sq = Inr q \<and> isPieceOf type q)))"
  using assms
proof (induction ys)
  case Nil
  then show ?case by simp
next
  case (Cons y ys)
  then obtain q where q: "get s (squareLabel x y) = Inr q" by auto
  show ?case
  proof (cases "isPieceOf type q")
    case True
    with q show ?thesis by simp
  next
    case False
    from Cons obtain r where r: "scanRow get s type x ys = Inr r"
      "case r of
        None \<Rightarrow> (\<forall>y \<in> set ys. \<forall>q. get s (squareLabel x y) = Inr q \<longrightarrow> \<not> isPieceOf type q)
      | Some sq \<Rightarrow> (\<exists>y \<in> set ys. sq = squareLabel x y \<and> (\<exists>q. get s sq = Inr q \<and> isPieceOf type q))"
      by auto
    with q False show ?thesis
      by (cases r) auto
  qed
qed

lemma scanBoard_answers:
  assumes "\<forall>i < length rows. \<forall>y < length (rows ! i). \<exists>q. get s (squareLabel (x + i) y) = Inr q"
  shows "\<exists>r. scanBoard get s type x rows = Inr r \<and>
     (case r of
        None \<Rightarrow> (\<forall>i < length rows. \<forall>y < length (rows ! i). \<forall>q.
                   get s (squareLabel (x + i) y) = Inr q \<longrightarrow> \<not> isPieceOf type q)
      | Some sq \<Rightarrow> (\<exists>i < length rows. \<exists>y < length (rows ! i).
                   sq = squareLabel (x + i) y \<and> (\<exists>q. get s sq = Inr q \<and> isPieceOf type q)))"
  using assms
proof (induction rows arbitrary: x)
  case Nil
  then show ?case by simp
next
  case (Cons row rows)
  have row0: "\<forall>y \<in> set [0 ..< length row]. \<exists>q. get s (squareLabel x y) = Inr q"
    using Cons.prems by force
  obtain r0 where r0: "scanRow get s type x [0 ..< length row] = Inr r0"
    "case r0 of
        None \<Rightarrow> (\<forall>y \<in> set [0 ..< length row]. \<forall>q. get s (squareLabel x y) = Inr q \<longrightarrow> \<not> isPieceOf type q)
      | Some sq \<Rightarrow> (\<exists>y \<in> set [0 ..< length row]. sq = squareLabel x y \<and> (\<exists>q. get s sq = Inr q \<and> isPieceOf type q))"
    using scanRow_answers [of "[0 ..< length row]" get s x type] row0 by blast
  show ?case
  proof (cases r0)
    case (Some sq)
    with r0 have "\<exists>y < length row. sq = squareLabel x y \<and> (\<exists>q. get s sq = Inr q \<and> isPieceOf type q)"
      by auto
    then have "\<exists>i < length (row # rows). \<exists>y < length ((row # rows) ! i).
        sq = squareLabel (x + i) y \<and> (\<exists>q. get s sq = Inr q \<and> isPieceOf type q)"
      by (intro exI [of _ 0]) simp
    with Some r0 show ?thesis by simp
  next
    case None
    have rest: "\<forall>i < length rows. \<forall>y < length (rows ! i). \<exists>q. get s (squareLabel (Suc x + i) y) = Inr q"
    proof (intro allI impI)
      fix i y assume "i < length rows" "y < length (rows ! i)"
      then show "\<exists>q. get s (squareLabel (Suc x + i) y) = Inr q"
        using Cons.prems [rule_format, of "Suc i" y] by simp
    qed
    obtain r where r: "scanBoard get s type (Suc x) rows = Inr r"
      "case r of
        None \<Rightarrow> (\<forall>i < length rows. \<forall>y < length (rows ! i). \<forall>q.
                   get s (squareLabel (Suc x + i) y) = Inr q \<longrightarrow> \<not> isPieceOf type q)
      | Some sq \<Rightarrow> (\<exists>i < length rows. \<exists>y < length (rows ! i).
                   sq = squareLabel (Suc x + i) y \<and> (\<exists>q. get s sq = Inr q \<and> isPieceOf type q))"
      using Cons.IH [of "Suc x"] rest by blast
    show ?thesis
    proof (cases r)
      case rNone: None
      have "\<forall>i < length (row # rows). \<forall>y < length ((row # rows) ! i). \<forall>q.
          get s (squareLabel (x + i) y) = Inr q \<longrightarrow> \<not> isPieceOf type q"
      proof (intro allI impI)
        fix i y q
        assume i: "i < length (row # rows)" and y: "y < length ((row # rows) ! i)"
          and q: "get s (squareLabel (x + i) y) = Inr q"
        show "\<not> isPieceOf type q"
        proof (cases i)
          case 0
          with y q r0 None show ?thesis by auto
        next
          case (Suc j)
          with i y q r rNone show ?thesis by auto
        qed
      qed
      with None rNone r0 r show ?thesis by simp
    next
      case (Some sq)
      with r obtain j y where j: "j < length rows" "y < length (rows ! j)"
        "sq = squareLabel (Suc x + j) y" "\<exists>q. get s sq = Inr q \<and> isPieceOf type q"
        by auto
      then have "\<exists>i < length (row # rows). \<exists>y < length ((row # rows) ! i).
          sq = squareLabel (x + i) y \<and> (\<exists>q. get s sq = Inr q \<and> isPieceOf type q)"
        by (intro exI [of _ "Suc j"]) auto
      with None Some r0 r show ?thesis by simp
    qed
  qed
qed

lemma kingScan_finds:
  assumes b: "e_board (chess env) e = Inr b" and wf: "wfBoard b"
    and ans: "\<forall>sq. validSquare sq \<longrightarrow> (\<exists>q. e_get (chess env) e sq = Inr q)"
    and k: "validSquare k" "e_get (chess env) e k = Inr (Some \<lparr>ptype = King, pcolor = c\<rparr>)"
  shows "\<exists>sq. kingScan env (kingType c) e = Inr (Some sq) \<and> validSquare sq \<and>
     e_get (chess env) e sq = Inr (Some \<lparr>ptype = King, pcolor = c\<rparr>)"
proof -
  have len: "length b = 8" "\<And>i. i < 8 \<Longrightarrow> length (b ! i) = 8"
    using wf by (auto simp add: wfBoard_def list_all_length)
  have "\<forall>i < length b. \<forall>y < length (b ! i). \<exists>q. e_get (chess env) e (squareLabel (0 + i) y) = Inr q"
    using ans len squareLabel_valid by simp
  with scanBoard_answers [of b "e_get (chess env)" e 0 "kingType c"]
  obtain r where r: "scanBoard (e_get (chess env)) e (kingType c) 0 b = Inr r"
    "case r of
        None \<Rightarrow> (\<forall>i < length b. \<forall>y < length (b ! i). \<forall>q.
                   e_get (chess env) e (squareLabel (0 + i) y) = Inr q \<longrightarrow> \<not> isPieceOf (kingType c) q)
      | Some sq \<Rightarrow> (\<exists>i < length b. \<exists>y < length (b ! i).
                   sq = squareLabel (0 + i) y \<and> (\<exists>q. e_get (chess env) e sq = Inr q \<and> isPieceOf (kingType c) q))"
    by blast
  obtain x y where xy: "x < 8" "y < 8" "k = squareLabel x y"
    using validSquare_label [OF k(1)] by blast
  show ?thesis
  proof (cases r)
    case None
    with r(2) xy k(2) len have "\<not> isPieceOf (kingType c) (Some \<lparr>ptype = King, pcolor = c\<rparr>)"
      by auto
    then show ?thesis by (simp add: isPieceOf_king)
  next
    case (Some sq)
    with r(2) len obtain i y' where "i < 8" "y' < 8" "sq = squareLabel i y'"
      "\<exists>q. e_get (chess env) e sq = Inr q \<and> isPieceOf (kingType c) q"
      by auto
    then show ?thesis
      using r(1) Some b squareLabel_valid by (auto simp add: kingScan_def isPieceOf_king)
  qed
qed


lemma afterMove_highlights_king:
  assumes "e_isCheckmate (chess env) (engine s) = Inr True"
    and "e_turn (chess env) (engine s) = Inr c"
    and "findKing env (kingType c) (engine s) = Inr (Some sq)"
  shows "\<exists>evs. trace (snd (afterMove env p m s)) =
      trace s @ Highlight sq (Some (checkmateHighlight env)) # evs \<and> filter isHighlight evs = []"
proof -
  let ?sh = "s\<lparr>trace := trace s @ [Highlight sq (Some (checkmateHighlight env))]\<rparr>"
  have "afterMove env p m s = deliver env p m ?sh"
    using assms by (simp add: afterMove_eq)
  moreover obtain evs where "trace (snd (deliver env p m ?sh)) = trace ?sh @ evs"
    "filter isHighlight evs = []"
    using deliver_new [of env p m ?sh] by blast
  ultimately show ?thesis
    by simp
qed

lemma afterMove_no_king:
  assumes "e_isCheckmate (chess env) (engine s) = Inr True"
    and "e_turn (chess env) (engine s) = Inr c"
    and "findKing env (kingType c) (engine s) = Inr None"
  shows "afterMove env p m s = (Inr (), s)"
  using assms by (simp add: afterMove_eq)

section \<open>The checkmate highlight\<close>

text \<open>
  C5. Without \<open>skipValidation\<close>: when the engine answers the request with a move and then
  reports checkmate with side \<open>c\<close> to move, on a board of 8 by 8 whose squares \<open>get\<close>
  answers for and on which a king of colour \<open>c\<close> stands, the call makes exactly one
  highlight request, in the checkmate colour, and its square, found by the scan of
  \<open>findKing\<close>, holds the king of colour \<open>c\<close>. With \<open>skipValidation\<close>: when the king
  lookup throws after such a move, the call makes no highlight request and ends normally.
\<close>

theorem checkmate_highlight:
  "(\<not> skipValidation env \<and>
    e_move (chess env) (engine s) from to p = Inr (Some m, e1) \<and>
    e_isCheckmate (chess env) e1 = Inr True \<and> e_turn (chess env) e1 = Inr c \<and>
    e_board (chess env) e1 = Inr b \<and> wfBoard b \<and>
    (\<forall>sq. validSquare sq \<longrightarrow> (\<exists>q. e_get (chess env) e1 sq = Inr q)) \<and>
    validSquare k \<and> e_get (chess env) e1 k = Inr (Some \<lparr>ptype = King, pcolor = c\<rparr>)
    \<longrightarrow>
    (\<exists>sq. filter isHighlight (newEvents s (snd (moveProgrammatically env from to p s))) =
            [Highlight sq (Some (checkmateHighlight env))] \<and>
          validSquare sq \<and>
          e_get (chess env) e1 sq = Inr (Some \<lparr>ptype = King, pcolor = c\<rparr>))) \<and>
   (skipValidation env \<and>
    e_move (chess env) (engine s) from to p = Inr (Some m, e1) \<and>
    e_isCheckmate (chess env) e1 = Inr True \<and> e_turn (chess env) e1 = Inr c \<and>
    kingScan env (kingType c) e1 = Inl err
    \<longrightarrow>
    filter isHighlight (newEvents s (snd (moveProgrammatically env from to p s))) = [] \<and>
    fst (moveProgrammatically env from to p s) = Inr ())"
proof (intro conjI impI)
  assume h: "\<not> skipValidation env \<and>
    e_move (chess env) (engine s) from to p = Inr (Some m, e1) \<and>
    e_isCheckmate (chess env) e1 = Inr True \<and> e_turn (chess env) e1 = Inr c \<and>
    e_board (chess env) e1 = Inr b \<and> wfBoard b \<and>
    (\<forall>sq. validSquare sq \<longrightarrow> (\<exists>q. e_get (chess env) e1 sq = Inr q)) \<and>
    validSquare k \<and> e_get (chess env) e1 k = Inr (Some \<lparr>ptype = King, pcolor = c\<rparr>)"
  then obtain sq where sq: "kingScan env (kingType c) e1 = Inr (Some sq)" "validSquare sq"
    "e_get (chess env) e1 sq = Inr (Some \<lparr>ptype = King, pcolor = c\<rparr>)"
    using kingScan_finds [of env e1 b k c] by blast
  let ?s2 = "s\<lparr>trace := trace s @ [EngineMove from to p], engine := e1, turn := c\<rparr>"
  have body: "snd (moveProgrammatically env from to p s) = snd (afterMove env p m ?s2)"
    using h by (simp add: snd_moveProgrammatically moveBody_def seq_def requestMove_eq updateTurn_eq)
  have fk: "findKing env (kingType c) (engine ?s2) = Inr (Some sq)"
    using sq(1) by (simp add: findKing_def)
  obtain evs where "trace (snd (afterMove env p m ?s2)) =
      trace ?s2 @ Highlight sq (Some (checkmateHighlight env)) # evs" "filter isHighlight evs = []"
    using afterMove_highlights_king [of env ?s2 c sq p m] h fk by auto
  then have "filter isHighlight (newEvents s (snd (moveProgrammatically env from to p s))) =
      [Highlight sq (Some (checkmateHighlight env))]"
    by (simp add: body newEvents_def isHighlight_def)
  with sq show "\<exists>sq. filter isHighlight (newEvents s (snd (moveProgrammatically env from to p s))) =
            [Highlight sq (Some (checkmateHighlight env))] \<and>
          validSquare sq \<and>
          e_get (chess env) e1 sq = Inr (Some \<lparr>ptype = King, pcolor = c\<rparr>)"
    by blast
next
  assume h: "skipValidation env \<and>
    e_move (chess env) (engine s) from to p = Inr (Some m, e1) \<and>
    e_isCheckmate (chess env) e1 = Inr True \<and> e_turn (chess env) e1 = Inr c \<and>
    kingScan env (kingType c) e1 = Inl err"
  let ?s2 = "s\<lparr>trace := trace s @ [EngineMove from to p], engine := e1, turn := c\<rparr>"
  have body: "snd (moveProgrammatically env from to p s) = snd (afterMove env p m ?s2)"
    using h by (simp add: snd_moveProgrammatically moveBody_def seq_def requestMove_eq updateTurn_eq)
  have fk: "findKing env (kingType c) (engine ?s2) = Inr None"
    using h by (simp add: findKing_def)
  have "afterMove env p m ?s2 = (Inr (), ?s2)"
    using afterMove_no_king [of env ?s2 c p m] h fk by simp
  then show "filter isHighlight (newEvents s (snd (moveProgrammatically env from to p s))) = []"
    by (simp add: body newEvents_def isHighlight_def)
next
  assume h: "skipValidation env \<and>
    e_move (chess env) (engine s) from to p = Inr (Some m, e1) \<and>
    e_isCheckmate (chess env) e1 = Inr True \<and> e_turn (chess env) e1 = Inr c \<and>
    kingScan env (kingType c) e1 = Inl err"
  then show "fst (moveProgrammatically env from to p s) = Inr ()"
    by (simp add: moveProgrammatically_def tryCatch_def ret_def split: prod.splits sum.splits)
qed

text \<open>
  The toy engine reports mate after e2-e4 with black to move: one highlight, on the black
  king's square h8. Where \<open>board()\<close> throws under \<open>skipValidation\<close>: no highlight, no error.
\<close>

theorem checkmate_highlight_witness:
  "(\<exists>sq. filter isHighlight
       (newEvents toyUi (snd (moveProgrammatically (toyEnv matingEngine False) ''e2'' ''e4'' None toyUi))) =
         [Highlight sq (Some ''red'')] \<and>
       validSquare sq \<and> e_get matingEngine 1 sq = Inr (Some \<lparr>ptype = King, pcolor = Black\<rparr>)) \<and>
   e_get matingEngine 1 ''h8'' = Inr (Some \<lparr>ptype = King, pcolor = Black\<rparr>) \<and>
   kingScan (toyEnv lostKingEngine True) ''bk'' 1 = Inl (Thrown ''board'') \<and>
   filter isHighlight
     (newEvents toyUi (snd (moveProgrammatically (toyEnv lostKingEngine True) ''e2'' ''e4'' None toyUi))) = [] \<and>
   fst (moveProgrammatically (toyEnv lostKingEngine True) ''e2'' ''e4'' None toyUi) = Inr ()"
proof -
  have wf: "wfBoard toyBoard"
    by (simp add: wfBoard_def toyBoard_def emptyRow_def)
  have king: "e_get matingEngine 1 ''h8'' = Inr (Some \<lparr>ptype = King, pcolor = Black\<rparr>)"
    by (simp add: matingEngine_def toyEngine_def pieceAt_def boardCell_def jsIndex_def
        rankIndex_def fileIndex_def toyBoard_def)
  have v: "validSquare ''h8''"
    by (simp add: validSquare_def files_def ranks_def)
  have scan: "kingScan (toyEnv lostKingEngine True) ''bk'' 1 = Inl (Thrown ''board'')"
    by (simp add: kingScan_def toyEnv_def lostKingEngine_def toyEngine_def)
  show ?thesis
    using wf king v scan
      checkmate_highlight [of "toyEnv matingEngine False" toyUi "''e2''" "''e4''" None toyMove 1 Black
        toyBoard "''h8''" undefined]
      checkmate_highlight [of "toyEnv lostKingEngine True" toyUi "''e2''" "''e4''" None toyMove 1 Black
        toyBoard "''h8''" "Thrown ''board''"]
    by (simp add: toyEnv_def matingEngine_def lostKingEngine_def toyEngine_def toyUi_def kingType_def)
qed

section \<open>When a move is a promotion\<close>

text \<open>
  C6. For squares \<open>from\<close> and \<open>to\<close> of the board, when \<open>toTranslation\<close> puts \<open>from\<close> in its
  own cell of the board matrix and \<open>board()\<close> answers, \<open>isPromoting\<close> answers true exactly
  when the piece on \<open>from\<close> is a pawn and \<open>to\<close> is on rank 8 for a white pawn, on rank 1
  for a black one. With \<open>skipValidation\<close>, a throw of \<open>toTranslation\<close> or of \<open>board()\<close>
  makes it answer false; without, it throws that error when \<open>to\<close> is on rank 1 or 8.
\<close>

theorem isPromoting_iff:
  "(validSquare from \<and> validSquare to \<and> pieceSize env \<noteq> 0 \<and>
    toTranslation env from = Inr v \<and>
    vx v div pieceSize env = fileIndex from \<and> vy v div pieceSize env = 7 - rankIndex from \<and>
    e_board (chess env) e = Inr b
    \<longrightarrow>
    isPromoting env from to e =
      Inr (\<exists>pc. pieceAt b from = Some pc \<and> ptype pc = Pawn \<and>
             ((rankIndex to = 7 \<and> pcolor pc = White) \<or> (rankIndex to = 0 \<and> pcolor pc = Black)))) \<and>
   (skipValidation env \<and>
    (toTranslation env from = Inl err \<or>
     (\<exists>w. toTranslation env from = Inr w) \<and> e_board (chess env) e = Inl err)
    \<longrightarrow> isPromoting env from to e = Inr False) \<and>
   (\<not> skipValidation env \<and> validSquare to \<and> (rankIndex to = 7 \<or> rankIndex to = 0) \<and>
    (toTranslation env from = Inl err \<or>
     (\<exists>w. toTranslation env from = Inr w) \<and> e_board (chess env) e = Inl err)
    \<longrightarrow> isPromoting env from to e = Inl err)"
proof (intro conjI impI)
  assume h: "validSquare from \<and> validSquare to \<and> pieceSize env \<noteq> 0 \<and>
    toTranslation env from = Inr v \<and>
    vx v div pieceSize env = fileIndex from \<and> vy v div pieceSize env = 7 - rankIndex from \<and>
    e_board (chess env) e = Inr b"
  then have to: "strIncludes to CHR ''8'' \<longleftrightarrow> rankIndex to = 7"
    "strIncludes to CHR ''1'' \<longleftrightarrow> rankIndex to = 0"
    using validSquare_facts(1,2) [of "to"] by blast+
  show "isPromoting env from to e =
      Inr (\<exists>pc. pieceAt b from = Some pc \<and> ptype pc = Pawn \<and>
             ((rankIndex to = 7 \<and> pcolor pc = White) \<or> (rankIndex to = 0 \<and> pcolor pc = Black)))"
    using h
    by (auto simp add: isPromoting_def to floorDiv_def pieceAt_def promotes_def Let_def
        split: option.splits)
next
  assume "skipValidation env \<and>
    (toTranslation env from = Inl err \<or>
     (\<exists>w. toTranslation env from = Inr w) \<and> e_board (chess env) e = Inl err)"
  then show "isPromoting env from to e = Inr False"
    by (auto simp add: isPromoting_def Let_def)
next
  assume h: "\<not> skipValidation env \<and> validSquare to \<and> (rankIndex to = 7 \<or> rankIndex to = 0) \<and>
    (toTranslation env from = Inl err \<or>
     (\<exists>w. toTranslation env from = Inr w) \<and> e_board (chess env) e = Inl err)"
  then have "strIncludes to CHR ''8'' \<or> strIncludes to CHR ''1''"
    using validSquare_facts(1,2) [of "to"] by blast
  with h show "isPromoting env from to e = Inl err"
    by (auto simp add: isPromoting_def Let_def)
qed

text \<open>
  In the toy position: the white pawn on a7 promotes on a8, the white pawn on e2 does not
  on e1; with \<open>board()\<close> throwing the answer is false under \<open>skipValidation\<close> and the
  error otherwise.
\<close>

theorem isPromoting_iff_witness:
  "isPromoting (toyEnv toyEngine False) ''a7'' ''a8'' 0 = Inr True \<and>
   pieceAt toyBoard ''a7'' = Some \<lparr>ptype = Pawn, pcolor = White\<rparr> \<and>
   isPromoting (toyEnv toyEngine False) ''e2'' ''e1'' 0 = Inr False \<and>
   pieceAt toyBoard ''e2'' = Some \<lparr>ptype = Pawn, pcolor = White\<rparr> \<and>
   isPromoting (toyEnv lostKingEngine True) ''a7'' ''a8'' 0 = Inr False \<and>
   isPromoting (toyEnv lostKingEngine False) ''a7'' ''a8'' 0 = Inl (Thrown ''board'')"
proof -
  have v: "validSquare ''a7''" "validSquare ''a8''" "validSquare ''e2''" "validSquare ''e1''"
    by (simp_all add: validSquare_def files_def ranks_def)
  have idx: "fileIndex ''a7'' = 0" "rankIndex ''a7'' = 6" "rankIndex ''a8'' = 7"
    "fileIndex ''e2'' = 4" "rankIndex ''e2'' = 1" "rankIndex ''e1'' = 0"
    by (simp_all add: fileIndex_def rankIndex_def)
  have pc: "pieceAt toyBoard ''a7'' = Some \<lparr>ptype = Pawn, pcolor = White\<rparr>"
    "pieceAt toyBoard ''e2'' = Some \<lparr>ptype = Pawn, pcolor = White\<rparr>"
    by (simp_all add: pieceAt_def boardCell_def jsIndex_def idx toyBoard_def emptyRow_def)
  show ?thesis
    using v pc
      isPromoting_iff [of "''a7''" "''a8''" "toyEnv toyEngine False" "\<lparr>vx = 0, vy = 50\<rparr>" 0 toyBoard undefined]
      isPromoting_iff [of "''e2''" "''e1''" "toyEnv toyEngine False" "\<lparr>vx = 200, vy = 300\<rparr>" 0 toyBoard undefined]
      isPromoting_iff [of "''a7''" "''a8''" "toyEnv lostKingEngine True" undefined 0 undefined "Thrown ''board''"]
      isPromoting_iff [of "''a7''" "''a8''" "toyEnv lostKingEngine False" undefined 0 undefined "Thrown ''board''"]
    by (simp add: toyEnv_def toyEngine_def lostKingEngine_def idx)
qed

section \<open>The round trip of the coordinate mapper\<close>

text \<open>
  C9. For each of the 64 squares and a positive cell edge, under either orientation,
  \<open>squareOf\<close> of \<open>pixelOf\<close> of the square is the square.
\<close>

theorem squareOf_pixelOf:
  "validSquare s \<and> 0 < cell \<longrightarrow> squareOf ori cell (pixelOf ori cell s) = Some s"
proof
  assume h: "validSquare s \<and> 0 < cell"
  then have f: "0 \<le> fileIndex s" "fileIndex s \<le> 7" and r: "0 \<le> rankIndex s" "rankIndex s \<le> 7"
    using validSquare_facts [of s] by blast+
  have l: "labelOf (fileIndex s) (rankIndex s) = s"
    using h validSquare_labelOf by blast
  have pos: "0 < cell" using h by simp
  have b1: "\<not> n * cell < 0" if "0 \<le> n" for n :: int
    using that pos by (simp add: not_less)
  have b2: "\<not> 8 * cell \<le> n * cell" if "n \<le> 7" for n :: int
  proof -
    have "n * cell \<le> 7 * cell"
      using that pos by (simp add: mult_right_mono)
    then show ?thesis using pos by simp
  qed
  have b3: "n * cell div cell = n" for n :: int
    using pos by simp
  show "squareOf ori cell (pixelOf ori cell s) = Some s"
  proof (cases ori)
    case WhiteBelow
    have "0 \<le> 7 - rankIndex s" "7 - rankIndex s \<le> 7" using r by simp_all
    then show ?thesis
      using pos
      by (simp add: squareOf_def pixelOf_def Let_def WhiteBelow b1 b2 b3 f r l)
  next
    case BlackBelow
    have "0 \<le> 7 - fileIndex s" "7 - fileIndex s \<le> 7" using f by simp_all
    then show ?thesis
      using pos
      by (simp add: squareOf_def pixelOf_def Let_def BlackBelow b1 b2 b3 f r l)
  qed
qed

text \<open>The square e4 with cells of 50 pixels, both ways up; a pixel right of the board has no square.\<close>

theorem squareOf_pixelOf_witness:
  "validSquare ''e4'' \<and> squareOf WhiteBelow 50 (pixelOf WhiteBelow 50 ''e4'') = Some ''e4'' \<and>
   squareOf BlackBelow 50 (pixelOf BlackBelow 50 ''e4'') = Some ''e4'' \<and>
   pixelOf WhiteBelow 50 ''e4'' = \<lparr>vx = 200, vy = 200\<rparr> \<and>
   pixelOf BlackBelow 50 ''e4'' = \<lparr>vx = 150, vy = 150\<rparr> \<and>
   squareOf WhiteBelow 50 \<lparr>vx = 400, vy = 0\<rparr> = None"
proof -
  have v: "validSquare ''e4''"
    by (simp add: validSquare_def files_def ranks_def)
  show ?thesis
    using v squareOf_pixelOf [of "''e4''" 50 WhiteBelow] squareOf_pixelOf [of "''e4''" 50 BlackBelow]
    by (simp add: pixelOf_def squareOf_def fileIndex_def rankIndex_def)
qed

end
